theory Spec2Isabelle
  imports Complex_Main "HOL-Library.Multiset"
begin

section \<open>JavaScript numbers and values\<close>

text \<open>
  The video player screen computes with JavaScript numbers. A number is modelled as a
  real (standing for a finite double), one of the two infinities, or NaN. Rounding of
  doubles is not modelled; the special values are, because the screen divides by a
  measured track width that may be zero. The two zeros are identified, and a zero
  divisor counts as positive zero (what a measured width of 0 is).
\<close>

datatype jsnum = Fin real | PInf | NInf | NaN

text \<open>Values that reach \<open>formatTime\<close>: a number, \<open>null\<close> or \<open>undefined\<close>.\<close>

datatype jsval = Number jsnum | Null | Undefined

fun js_neg :: "jsnum \<Rightarrow> jsnum" where
  "js_neg (Fin a) = Fin (- a)"
| "js_neg PInf = NInf"
| "js_neg NInf = PInf"
| "js_neg NaN = NaN"

fun js_add :: "jsnum \<Rightarrow> jsnum \<Rightarrow> jsnum" where
  "js_add (Fin a) (Fin b) = Fin (a + b)"
| "js_add NaN b = NaN"
| "js_add a NaN = NaN"
| "js_add PInf NInf = NaN"
| "js_add NInf PInf = NaN"
| "js_add PInf b = PInf"
| "js_add a PInf = PInf"
| "js_add NInf b = NInf"
| "js_add a NInf = NInf"

definition js_sub :: "jsnum \<Rightarrow> jsnum \<Rightarrow> jsnum" where
  "js_sub a b = js_add a (js_neg b)"

text \<open>The sign of a number as \<open>-1\<close>, \<open>0\<close> or \<open>1\<close>, and the infinity of a given sign
  (NaN for sign \<open>0\<close>, as in \<open>0 * Infinity\<close> and \<open>0 / 0\<close>).\<close>

fun js_signum :: "jsnum \<Rightarrow> real" where
  "js_signum (Fin a) = (if 0 < a then 1 else if a < 0 then - 1 else 0)"
| "js_signum PInf = 1"
| "js_signum NInf = - 1"
| "js_signum NaN = 0"

definition js_inf :: "real \<Rightarrow> jsnum" where
  "js_inf s = (if 0 < s then PInf else if s < 0 then NInf else NaN)"

fun js_mul :: "jsnum \<Rightarrow> jsnum \<Rightarrow> jsnum" where
  "js_mul (Fin a) (Fin b) = Fin (a * b)"
| "js_mul NaN b = NaN"
| "js_mul a NaN = NaN"
| "js_mul a b = js_inf (js_signum a * js_signum b)"

fun js_div :: "jsnum \<Rightarrow> jsnum \<Rightarrow> jsnum" where
  "js_div (Fin a) (Fin b) = (if b = 0 then js_inf a else Fin (a / b))"
| "js_div NaN b = NaN"
| "js_div a NaN = NaN"
| "js_div (Fin a) b = Fin 0"
| "js_div a (Fin b) = js_inf (js_signum a * (if b < 0 then - 1 else 1))"
| "js_div a b = NaN"

text \<open>The remainder operator \<open>%\<close>: the quotient is truncated towards zero, so the
  result has the sign of the dividend.\<close>

definition js_trunc :: "real \<Rightarrow> int" where
  "js_trunc x = (if 0 \<le> x then \<lfloor>x\<rfloor> else \<lceil>x\<rceil>)"

fun js_rem :: "jsnum \<Rightarrow> jsnum \<Rightarrow> jsnum" where
  "js_rem (Fin a) (Fin b) = (if b = 0 then NaN else Fin (a - b * of_int (js_trunc (a / b))))"
| "js_rem NaN b = NaN"
| "js_rem a NaN = NaN"
| "js_rem (Fin a) b = Fin a"
| "js_rem a b = NaN"

text \<open>The comparison \<open>a < b\<close>: false as soon as one side is NaN.\<close>

fun js_less :: "jsnum \<Rightarrow> jsnum \<Rightarrow> bool" where
  "js_less (Fin a) (Fin b) = (a < b)"
| "js_less NaN b = False"
| "js_less a NaN = False"
| "js_less NInf NInf = False"
| "js_less NInf b = True"
| "js_less a NInf = False"
| "js_less PInf b = False"
| "js_less a PInf = True"

definition Math_min :: "jsnum \<Rightarrow> jsnum \<Rightarrow> jsnum" where
  "Math_min a b = (if a = NaN \<or> b = NaN then NaN else if js_less b a then b else a)"

definition Math_max :: "jsnum \<Rightarrow> jsnum \<Rightarrow> jsnum" where
  "Math_max a b = (if a = NaN \<or> b = NaN then NaN else if js_less a b then b else a)"

fun Math_floor :: "jsnum \<Rightarrow> jsnum" where
  "Math_floor (Fin a) = Fin (of_int \<lfloor>a\<rfloor>)"
| "Math_floor n = n"

text \<open>Truthiness of a number (\<open>0\<close> and NaN are falsy) and the idiom \<open>x || 0\<close>.\<close>

definition truthy :: "jsnum \<Rightarrow> bool" where
  "truthy n = (n \<noteq> NaN \<and> n \<noteq> Fin 0)"

definition or_zero :: "jsnum \<Rightarrow> jsnum" where
  "or_zero n = (if truthy n then n else Fin 0)"

text \<open>Truthiness of a value, its conversion to a number, and the global \<open>isNaN\<close>,
  which converts first.\<close>

fun truthy_val :: "jsval \<Rightarrow> bool" where
  "truthy_val (Number n) = truthy n"
| "truthy_val Null = False"
| "truthy_val Undefined = False"

fun ToNumber :: "jsval \<Rightarrow> jsnum" where
  "ToNumber (Number n) = n"
| "ToNumber Null = Fin 0"
| "ToNumber Undefined = NaN"

definition isNaN :: "jsval \<Rightarrow> bool" where
  "isNaN v = (ToNumber v = NaN)"

subsection \<open>Numbers as strings\<close>

text \<open>
  \<open>toString\<close> of a number. A whole number below \<open>2^53\<close> in magnitude prints as its
  decimal digits; up to there doubles hold every whole number exactly. How JavaScript
  prints any other finite number (the digits of a fraction, the rounded digits of a
  double from \<open>2^53\<close> on, exponent notation from \<open>10^21\<close> on) is not modelled: it
  is the parameter \<open>other\<close>, which every function that prints a number takes.
\<close>

definition digit :: "nat \<Rightarrow> char" where
  "digit n = ''0123456789'' ! n"

function decimal :: "nat \<Rightarrow> string" where
  "decimal n = (if n < 10 then [digit n] else decimal (n div 10) @ [digit (n mod 10)])"
  by pat_completeness auto
termination
  by (relation "measure id") auto

declare decimal.simps [simp del]

definition int_toString :: "int \<Rightarrow> string" where
  "int_toString i = (if i < 0 then ''-'' @ decimal (nat (- i)) else decimal (nat i))"

fun toString :: "(real \<Rightarrow> string) \<Rightarrow> jsnum \<Rightarrow> string" where
  "toString other (Fin a) =
     (if a = of_int \<lfloor>a\<rfloor> \<and> \<bar>a\<bar> < 2 ^ 53 then int_toString \<lfloor>a\<rfloor> else other a)"
| "toString other PInf = ''Infinity''"
| "toString other NInf = ''-Infinity''"
| "toString other NaN = ''NaN''"

text \<open>\<open>s.padStart(n, c)\<close> for a one-character pad string.\<close>

definition padStart :: "string \<Rightarrow> nat \<Rightarrow> char \<Rightarrow> string" where
  "padStart s n c = (if length s < n then replicate (n - length s) c @ s else s)"

section \<open>The video player screen\<close>

subsection \<open>Constants\<close>

definition DOUBLE_TAP_DELAY :: int where
  "DOUBLE_TAP_DELAY = 300"

definition PLAY_PAUSE_OVERLAY_DURATION :: int where
  "PLAY_PAUSE_OVERLAY_DURATION = 2500"

definition SEEK_INDICATOR_DURATION :: int where
  "SEEK_INDICATOR_DURATION = 1000"

subsection \<open>State\<close>

text \<open>
  The player object of the media library, as far as the screen reads and writes it.
  The hook that creates it returns an object on every render, so the screen's guards
  against a missing player never fire and are left out. A write to
  \<open>player.currentTime\<close> is recorded as written.
\<close>

datatype status = idle | loading | readyToPlay | error

record player =
  player_currentTime :: jsnum
  player_duration :: jsnum
  player_playing :: bool
  player_status :: status

datatype direction = forward | backward

text \<open>
  The component's state: its \<open>useState\<close> cells, the player, and the two timeout
  refs. A timeout ref is modelled by the due time of the pending timeout it points to,
  \<open>None\<close> when it is \<open>null\<close> or its timeout has fired or was cleared (each
  \<open>setTimeout\<close> of an overlay is preceded by \<open>clearTimeout\<close> of the one before,
  so at most one is pending).
\<close>

record screen =
  isPlaying :: bool
  currentTime :: jsnum
  duration :: jsnum
  showPlayPauseOverlay :: bool
  seekbarValue :: jsnum
  isDragging :: bool
  showSeekIndicator :: bool
  seekDirection :: "direction option"
  screenData_width :: real
  seekbarPosition :: jsnum
  isBuffering :: bool
  overlayTimeoutRef :: "int option"
  seekIndicatorTimeoutRef :: "int option"
  player :: player

subsection \<open>Seeking\<close>

definition seekForward :: "screen \<Rightarrow> screen" where
  "seekForward st =
     (let newPosition = Math_min (js_add (player_currentTime (player st)) (Fin 10))
                                 (player_duration (player st))
      in st\<lparr>player := (player st)\<lparr>player_currentTime := newPosition\<rparr>,
             currentTime := newPosition\<rparr>)"

definition seekBackward :: "screen \<Rightarrow> screen" where
  "seekBackward st =
     (let newPosition = Math_max (js_sub (player_currentTime (player st)) (Fin 10)) (Fin 0)
      in st\<lparr>player := (player st)\<lparr>player_currentTime := newPosition\<rparr>,
             currentTime := newPosition\<rparr>)"

definition togglePlayPause :: "screen \<Rightarrow> screen" where
  "togglePlayPause st =
     (if player_playing (player st)
      then st\<lparr>player := (player st)\<lparr>player_playing := False\<rparr>, isPlaying := False\<rparr>
      else st\<lparr>player := (player st)\<lparr>player_playing := True\<rparr>, isPlaying := True\<rparr>)"

subsection \<open>Formatting a time\<close>

definition formatTime :: "(real \<Rightarrow> string) \<Rightarrow> jsval \<Rightarrow> string" where
  "formatTime other seconds =
     (if \<not> truthy_val seconds \<or> isNaN seconds then ''0:00''
      else
        let totalSeconds = Math_floor (ToNumber seconds);
            minutes = Math_floor (js_div totalSeconds (Fin 60));
            secs = js_rem totalSeconds (Fin 60)
        in toString other minutes @ '':'' @ padStart (toString other secs) 2 (CHR ''0''))"

subsection \<open>Overlays that hide themselves\<close>

text \<open>
  Each overlay has an effect whose only dependency is the overlay's own visibility
  flag. React runs such an effect after a render in which the flag changed, and runs the
  cleanup of the previous run first; a state setter called with the value the cell already
  holds changes nothing and runs no effect. The time \<open>now\<close> is the time at which the
  setter is called.
\<close>

definition overlayEffect :: "int \<Rightarrow> screen \<Rightarrow> screen" where
  "overlayEffect now st =
     (let cleaned = st\<lparr>overlayTimeoutRef := None\<rparr>
      in if showPlayPauseOverlay cleaned
         then cleaned\<lparr>overlayTimeoutRef := Some (now + PLAY_PAUSE_OVERLAY_DURATION)\<rparr>
         else cleaned)"

definition setShowPlayPauseOverlay :: "int \<Rightarrow> bool \<Rightarrow> screen \<Rightarrow> screen" where
  "setShowPlayPauseOverlay now v st =
     (if showPlayPauseOverlay st = v then st
      else overlayEffect now (st\<lparr>showPlayPauseOverlay := v\<rparr>))"

definition seekIndicatorEffect :: "int \<Rightarrow> screen \<Rightarrow> screen" where
  "seekIndicatorEffect now st =
     (let cleaned = st\<lparr>seekIndicatorTimeoutRef := None\<rparr>
      in if showSeekIndicator cleaned
         then cleaned\<lparr>seekIndicatorTimeoutRef := Some (now + SEEK_INDICATOR_DURATION)\<rparr>
         else cleaned)"

definition setShowSeekIndicator :: "int \<Rightarrow> bool \<Rightarrow> screen \<Rightarrow> screen" where
  "setShowSeekIndicator now v st =
     (if showSeekIndicator st = v then st
      else seekIndicatorEffect now (st\<lparr>showSeekIndicator := v\<rparr>))"

text \<open>The callbacks of the two timeouts, run at their due time.\<close>

definition overlayTimeout :: "int \<Rightarrow> screen \<Rightarrow> screen" where
  "overlayTimeout now st = setShowPlayPauseOverlay now False (st\<lparr>overlayTimeoutRef := None\<rparr>)"

definition seekIndicatorTimeout :: "int \<Rightarrow> screen \<Rightarrow> screen" where
  "seekIndicatorTimeout now st =
     (setShowSeekIndicator now False (st\<lparr>seekIndicatorTimeoutRef := None\<rparr>))\<lparr>seekDirection := None\<rparr>"

text \<open>
  Time passing up to \<open>now\<close>: every pending timeout that is due by then fires, the
  earlier one first. Neither callback starts a timeout, so one pass is enough.
\<close>

definition fireOverlay :: "int \<Rightarrow> screen \<Rightarrow> screen" where
  "fireOverlay now st =
     (case overlayTimeoutRef st of
        Some due \<Rightarrow> if due \<le> now then overlayTimeout due st else st
      | None \<Rightarrow> st)"

definition fireSeekIndicator :: "int \<Rightarrow> screen \<Rightarrow> screen" where
  "fireSeekIndicator now st =
     (case seekIndicatorTimeoutRef st of
        Some due \<Rightarrow> if due \<le> now then seekIndicatorTimeout due st else st
      | None \<Rightarrow> st)"

definition elapse :: "int \<Rightarrow> screen \<Rightarrow> screen" where
  "elapse now st =
     (case (overlayTimeoutRef st, seekIndicatorTimeoutRef st) of
        (Some o_due, Some s_due) \<Rightarrow>
          if s_due < o_due then fireOverlay now (fireSeekIndicator now st)
          else fireSeekIndicator now (fireOverlay now st)
      | _ \<Rightarrow> fireSeekIndicator now (fireOverlay now st))"

subsection \<open>Taps on the video\<close>

definition handleSingleTap :: "int \<Rightarrow> screen \<Rightarrow> screen" where
  "handleSingleTap now st = togglePlayPause (setShowPlayPauseOverlay now True st)"

definition handleDoubleTap :: "int \<Rightarrow> real \<Rightarrow> screen \<Rightarrow> screen" where
  "handleDoubleTap now locationX st =
     (let videoWidth = screenData_width st;
          isLeftHalf = (locationX < videoWidth / 2);
          sought = (if isLeftHalf then (seekBackward st)\<lparr>seekDirection := Some backward\<rparr>
                    else (seekForward st)\<lparr>seekDirection := Some forward\<rparr>)
      in setShowSeekIndicator now True sought)"

text \<open>
  Telling a single tap from a double tap. Neither \<open>handleSingleTap\<close> nor
  \<open>handleDoubleTap\<close> reads or writes \<open>lastTapRef\<close> or the tap timeouts, so the tap
  handler is modelled on a state of its own, and their invocations are recorded in a
  call log: \<open>SingleTap n\<close> is the call made by the timeout of the tap stamped \<open>n\<close>,
  \<open>DoubleTap m n x\<close> the call for the taps stamped \<open>m\<close> (held in \<open>lastTapRef\<close>) and
  \<open>n\<close>, with the second tap's \<open>locationX\<close>. A pending timeout is the pair of its due
  time and the stamp its callback closed over; these timeouts are never cleared.
\<close>

datatype call = SingleTap int | DoubleTap int int real

record tap_state =
  lastTapRef :: "int option"
  timeouts :: "(int \<times> int) list"
  calls :: "call list"

text \<open>The condition \<open>lastTapRef.current && (now - lastTapRef.current < DOUBLE_TAP_DELAY)\<close>
  is inlined: \<open>null\<close> and the stamp \<open>0\<close> are falsy.\<close>

definition handleVideoTap :: "int \<Rightarrow> real \<Rightarrow> tap_state \<Rightarrow> tap_state" where
  "handleVideoTap now locationX st =
     (case lastTapRef st of
        Some lastTap \<Rightarrow>
          if lastTap \<noteq> 0 \<and> now - lastTap < DOUBLE_TAP_DELAY
          then st\<lparr>calls := calls st @ [DoubleTap lastTap now locationX], lastTapRef := None\<rparr>
          else st\<lparr>lastTapRef := Some now,
                  timeouts := timeouts st @ [(now + DOUBLE_TAP_DELAY, now)]\<rparr>
      | None \<Rightarrow>
          st\<lparr>lastTapRef := Some now,
              timeouts := timeouts st @ [(now + DOUBLE_TAP_DELAY, now)]\<rparr>)"

definition timeoutCallback :: "int \<Rightarrow> tap_state \<Rightarrow> tap_state" where
  "timeoutCallback now st =
     (if lastTapRef st = Some now
      then st\<lparr>calls := calls st @ [SingleTap now], lastTapRef := None\<rparr>
      else st)"

definition noTaps :: tap_state where
  "noTaps = \<lparr>lastTapRef = None, timeouts = [], calls = []\<rparr>"

text \<open>
  What the runtime may do with these handlers. A tap is handled at the time its handler
  reads from \<open>Date.now()\<close>. A timeout set by \<open>setTimeout\<close> runs once, at some time
  not before it is due; nothing makes it run before a tap that is handled after the due
  time. A schedule is the list of these events in the order in which they are handled:
  \<open>Tap now x\<close> is a tap handled at \<open>now\<close> with \<open>locationX = x\<close>, and
  \<open>Timeout t n\<close> is the callback of the timeout set by the tap stamped \<open>n\<close>, run at
  \<open>t\<close>. The run of a schedule is \<open>None\<close> when the schedule cannot happen: time
  goes backwards, or a callback runs that is not pending or not yet due.
\<close>

datatype event = Tap int real | Timeout int int

fun run :: "int \<Rightarrow> event list \<Rightarrow> tap_state \<Rightarrow> tap_state option" where
  "run clock [] st = Some st"
| "run clock (Tap now locationX # evs) st =
     (if clock \<le> now then run now evs (handleVideoTap now locationX st) else None)"
| "run clock (Timeout t n # evs) st =
     (if clock \<le> t \<and> (n + DOUBLE_TAP_DELAY, n) \<in> set (timeouts st)
         \<and> n + DOUBLE_TAP_DELAY \<le> t
      then run t evs
             (timeoutCallback n
                (st\<lparr>timeouts := remove1 (n + DOUBLE_TAP_DELAY, n) (timeouts st)\<rparr>))
      else None)"

text \<open>The calls a schedule makes, from the epoch on and with every timeout run in the
  end; \<open>None\<close> for a schedule that cannot happen or leaves a timeout pending.\<close>

definition classify :: "event list \<Rightarrow> call list option" where
  "classify evs =
     (case run 0 evs noTaps of
        None \<Rightarrow> None
      | Some st \<Rightarrow> if timeouts st = [] then Some (calls st) else None)"

text \<open>The stamps of the taps a call accounts for, and the stamps of the taps of a
  schedule.\<close>

fun taps_of :: "call \<Rightarrow> int list" where
  "taps_of (SingleTap n) = [n]"
| "taps_of (DoubleTap m n x) = [m, n]"

fun tap_stamps :: "event list \<Rightarrow> int list" where
  "tap_stamps [] = []"
| "tap_stamps (Tap now locationX # evs) = now # tap_stamps evs"
| "tap_stamps (Timeout t n # evs) = tap_stamps evs"

text \<open>
  Bookkeeping for the tap handler: the stamps the calls made so far account for, and
  the stamp still waiting in \<open>lastTapRef\<close>.
\<close>

definition covered :: "call list \<Rightarrow> int multiset" where
  "covered cs = mset (concat (map taps_of cs))"

definition pending :: "tap_state \<Rightarrow> int multiset" where
  "pending st = (case lastTapRef st of None \<Rightarrow> {#} | Some n \<Rightarrow> {#n#})"

definition accounted :: "tap_state \<Rightarrow> int multiset" where
  "accounted st = covered (calls st) + pending st"

subsection \<open>The seek bar\<close>

text \<open>
  The press and drag handlers measure the track and compute the same expression,
  \<open>Math.max(0, Math.min(1, touchX / trackWidth))\<close> with
  \<open>touchX = event.nativeEvent.pageX - pageX\<close>. The measured numbers are finite. The
  source has no check of the width and no error path, so the result is a number.
\<close>

definition touchProgress :: "real \<Rightarrow> real \<Rightarrow> real \<Rightarrow> jsnum" where
  "touchProgress event_pageX trackWidth pageX =
     (let touchX = event_pageX - pageX
      in Math_max (Fin 0) (Math_min (Fin 1) (js_div (Fin touchX) (Fin trackWidth))))"

definition handleSeekbarPress :: "real \<Rightarrow> real \<Rightarrow> real \<Rightarrow> screen \<Rightarrow> screen" where
  "handleSeekbarPress event_pageX trackWidth pageX st =
     (let newProgress = touchProgress event_pageX trackWidth pageX;
          shown = st\<lparr>seekbarValue := newProgress,
                      seekbarPosition := js_mul newProgress (Fin trackWidth)\<rparr>
      in if js_less (Fin 0) (duration st)
         then let newTime = js_mul newProgress (duration st)
              in shown\<lparr>player := (player st)\<lparr>player_currentTime := newTime\<rparr>,
                        currentTime := newTime\<rparr>
         else shown)"

definition onPanResponderGrant :: "real \<Rightarrow> real \<Rightarrow> real \<Rightarrow> screen \<Rightarrow> screen" where
  "onPanResponderGrant event_pageX trackWidth pageX st =
     (let newProgress = touchProgress event_pageX trackWidth pageX
      in st\<lparr>isDragging := True,
             seekbarValue := newProgress,
             seekbarPosition := js_mul newProgress (Fin trackWidth)\<rparr>)"

definition onPanResponderMove :: "real \<Rightarrow> real \<Rightarrow> real \<Rightarrow> screen \<Rightarrow> screen" where
  "onPanResponderMove event_pageX trackWidth pageX st =
     (let newProgress = touchProgress event_pageX trackWidth pageX
      in st\<lparr>seekbarValue := newProgress,
             seekbarPosition := js_mul newProgress (Fin trackWidth)\<rparr>)"

text \<open>
  The pan responder is created once and kept in a ref, so its release handler reads
  \<open>duration\<close> and \<open>seekbarValue\<close> of the render that created it; that render's
  state is the argument \<open>captured\<close>.
\<close>

definition onPanResponderRelease :: "screen \<Rightarrow> screen \<Rightarrow> screen" where
  "onPanResponderRelease captured st =
     (let sought =
        (if js_less (Fin 0) (duration captured)
         then let newTime = js_mul (seekbarValue captured) (duration captured)
              in st\<lparr>player := (player st)\<lparr>player_currentTime := newTime\<rparr>,
                    currentTime := newTime\<rparr>
         else st)
      in sought\<lparr>isDragging := False\<rparr>)"

subsection \<open>Polling the player\<close>

text \<open>
  The callback of the polling interval. The interval is set up again whenever
  \<open>isDragging\<close> or the seek bar's width changes, so the callback reads their current
  values. \<open>seekbarPadding\<close> is \<open>moderateScale(16)\<close>, a number of the device.
\<close>

definition seekbarWidth :: "real \<Rightarrow> screen \<Rightarrow> real" where
  "seekbarWidth seekbarPadding st = screenData_width st - seekbarPadding * 2"

definition intervalCallback :: "real \<Rightarrow> screen \<Rightarrow> screen" where
  "intervalCallback seekbarPadding st =
     (if \<not> isDragging st
      then
        let time = or_zero (player_currentTime (player st));
            dur = or_zero (player_duration (player st));
            read = st\<lparr>currentTime := time, duration := dur,
                       isPlaying := player_playing (player st),
                       isBuffering := (player_status (player st) = loading)\<rparr>
        in if js_less (Fin 0) dur
           then let progress = js_div time dur
                in read\<lparr>seekbarValue := progress,
                         seekbarPosition := js_mul progress (Fin (seekbarWidth seekbarPadding st))\<rparr>
           else read
      else st)"

text \<open>The time shown left of the seek bar.\<close>

definition displayedTime :: "(real \<Rightarrow> string) \<Rightarrow> screen \<Rightarrow> string" where
  "displayedTime other st =
     formatTime other (Number (if isDragging st then js_mul (seekbarValue st) (duration st)
                         else currentTime st))"

text \<open>What can happen between the start of a drag and its release: the finger moves,
  or the polling interval ticks.\<close>

datatype drag_event = PanMove real real real | IntervalTick

fun during_drag :: "real \<Rightarrow> drag_event \<Rightarrow> screen \<Rightarrow> screen" where
  "during_drag seekbarPadding (PanMove event_pageX trackWidth pageX) st =
     onPanResponderMove event_pageX trackWidth pageX st"
| "during_drag seekbarPadding IntervalTick st = intervalCallback seekbarPadding st"

fun is_move :: "drag_event \<Rightarrow> bool" where
  "is_move (PanMove event_pageX trackWidth pageX) = True"
| "is_move IntervalTick = False"

subsection \<open>The screen as first rendered\<close>

definition firstRender :: "player \<Rightarrow> real \<Rightarrow> screen" where
  "firstRender p width =
     \<lparr>isPlaying = False, currentTime = Fin 0, duration = Fin 0,
      showPlayPauseOverlay = False, seekbarValue = Fin 0, isDragging = False,
      showSeekIndicator = False, seekDirection = None, screenData_width = width,
      seekbarPosition = Fin 0, isBuffering = False,
      overlayTimeoutRef = None, seekIndicatorTimeoutRef = None, player = p\<rparr>"

text \<open>The play/pause overlay after single taps resolved at the given times, seen at
  time \<open>t\<close>: time passes up to each tap, and then up to \<open>t\<close>.\<close>

definition single_taps :: "int list \<Rightarrow> screen \<Rightarrow> screen" where
  "single_taps stamps st = fold (\<lambda>now s. handleSingleTap now (elapse now s)) stamps st"

definition overlay_shown_at :: "int \<Rightarrow> int list \<Rightarrow> screen \<Rightarrow> bool" where
  "overlay_shown_at t stamps st = showPlayPauseOverlay (elapse t (single_taps stamps st))"

subsection \<open>The specification's clamp\<close>

text \<open>\<open>clamp(v, lo, hi)\<close> as the specification of the seek controller uses it.\<close>

definition clamp_spec :: "real \<Rightarrow> real \<Rightarrow> real \<Rightarrow> real" where
  "clamp_spec v lo hi = (if v < lo then lo else if hi < v then hi else v)"

section \<open>Relative seeks\<close>

lemma seekForward_finite:
  "player_currentTime (player st) = Fin c \<Longrightarrow> player_duration (player st) = Fin d \<Longrightarrow>
   seekForward st = st\<lparr>player := (player st)\<lparr>player_currentTime := Fin (min (c + 10) d)\<rparr>,
                        currentTime := Fin (min (c + 10) d)\<rparr>"
  by (simp add: seekForward_def Math_min_def min_def Let_def)

lemma seekBackward_finite:
  "player_currentTime (player st) = Fin c \<Longrightarrow>
   seekBackward st = st\<lparr>player := (player st)\<lparr>player_currentTime := Fin (max (c - 10) 0)\<rparr>,
                         currentTime := Fin (max (c - 10) 0)\<rparr>"
  by (simp add: seekBackward_def Math_max_def js_sub_def max_def Let_def)

text \<open>A duration the player does not know yet, read as NaN, makes the forward target NaN.\<close>

lemma seekForward_NaN_duration:
  "player_duration (player st) = NaN \<Longrightarrow> currentTime (seekForward st) = NaN"
  by (simp add: seekForward_def Math_min_def Let_def)

text \<open>
  Claim C1, as stated: for every current time \<open>\<ge> 0\<close> and duration \<open>\<ge> 0\<close> both relative
  seeks produce a target in \<open>[0, duration]\<close>. \<open>seekBackward\<close> has a lower bound only:
  from the position 50 of a player that reports the duration 20 its target is 40.
\<close>

theorem seekBackward_above_duration:
  "currentTime (seekBackward (firstRender
      \<lparr>player_currentTime = Fin 50, player_duration = Fin 20, player_playing = True,
       player_status = readyToPlay\<rparr> 400)) = Fin 40 \<and> (20::real) < 40"
  by (simp add: seekBackward_def firstRender_def Math_max_def js_sub_def Let_def)

text \<open>
  Claim C1, amended: for every current time \<open>c \<ge> 0\<close> and duration \<open>d \<ge> 0\<close>,
  \<open>seekForward\<close> writes the target \<open>min (c + 10) d\<close>, which lies in \<open>[0, d]\<close>, and
  \<open>seekBackward\<close> writes \<open>max (c - 10) 0\<close>, which lies in \<open>[0, c]\<close> and so in
  \<open>[0, d]\<close> whenever the position is within the duration. Both write the target to the
  player and to the displayed current time.
\<close>

theorem seek_targets_bounded:
  assumes "player_currentTime (player st) = Fin c" and "player_duration (player st) = Fin d"
    and "0 \<le> c" and "0 \<le> d"
  shows "currentTime (seekForward st) = Fin (min (c + 10) d)
       \<and> player_currentTime (player (seekForward st)) = Fin (min (c + 10) d)
       \<and> 0 \<le> min (c + 10) d \<and> min (c + 10) d \<le> d
       \<and> currentTime (seekBackward st) = Fin (max (c - 10) 0)
       \<and> player_currentTime (player (seekBackward st)) = Fin (max (c - 10) 0)
       \<and> 0 \<le> max (c - 10) 0 \<and> max (c - 10) 0 \<le> c
       \<and> (c \<le> d \<longrightarrow> max (c - 10) 0 \<le> d)"
  using assms by (simp add: seekForward_finite seekBackward_finite)

text \<open>The two examples of the specification: from 95 of 100 forward to 100, from 5 of 100
  backward to 0.\<close>

theorem seek_targets_bounded_witness:
  "currentTime (seekForward (firstRender
      \<lparr>player_currentTime = Fin 95, player_duration = Fin 100, player_playing = True,
       player_status = readyToPlay\<rparr> 400)) = Fin 100
   \<and> currentTime (seekBackward (firstRender
      \<lparr>player_currentTime = Fin 5, player_duration = Fin 100, player_playing = True,
       player_status = readyToPlay\<rparr> 400)) = Fin 0"
  using seek_targets_bounded [of "firstRender
      \<lparr>player_currentTime = Fin 95, player_duration = Fin 100, player_playing = True,
       player_status = readyToPlay\<rparr> 400" 95 100]
    seek_targets_bounded [of "firstRender
      \<lparr>player_currentTime = Fin 5, player_duration = Fin 100, player_playing = True,
       player_status = readyToPlay\<rparr> 400" 5 100]
  by (simp add: firstRender_def)

text \<open>
  Claim C4, as stated: with duration 0 a relative seek leaves the position where it is.
  \<open>seekForward\<close> bounds the target by the duration, not by the position: from the
  position 5 it writes 0.
\<close>

theorem seekForward_zero_duration_moves:
  "currentTime (seekForward (firstRender
      \<lparr>player_currentTime = Fin 5, player_duration = Fin 0, player_playing = True,
       player_status = idle\<rparr> 400)) = Fin 0 \<and> Fin 0 \<noteq> Fin 5"
  by (simp add: seekForward_def firstRender_def Math_min_def Let_def)

text \<open>
  Claim C4, amended: with duration 0 and a current time \<open>c \<ge> 0\<close>, \<open>seekForward\<close>
  writes the target 0 (its upper bound is the duration) and \<open>seekBackward\<close> writes
  \<open>max (c - 10) 0\<close>; neither fails, and at the position 0, where playback stands
  before the duration is known, both leave the position unchanged.
\<close>

theorem seek_with_zero_duration:
  assumes "player_currentTime (player st) = Fin c" and "player_duration (player st) = Fin 0"
    and "0 \<le> c"
  shows "currentTime (seekForward st) = Fin 0
       \<and> player_currentTime (player (seekForward st)) = Fin 0
       \<and> currentTime (seekBackward st) = Fin (max (c - 10) 0)
       \<and> player_currentTime (player (seekBackward st)) = Fin (max (c - 10) 0)
       \<and> (c = 0 \<longrightarrow> currentTime (seekForward st) = Fin c
                  \<and> currentTime (seekBackward st) = Fin c)"
  using assms by (simp add: seekForward_finite seekBackward_finite)

theorem seek_with_zero_duration_witness:
  "currentTime (seekForward (firstRender
      \<lparr>player_currentTime = Fin 0, player_duration = Fin 0, player_playing = True,
       player_status = idle\<rparr> 400)) = Fin 0
   \<and> currentTime (seekBackward (firstRender
      \<lparr>player_currentTime = Fin 0, player_duration = Fin 0, player_playing = True,
       player_status = idle\<rparr> 400)) = Fin 0"
  using seek_with_zero_duration [of "firstRender
      \<lparr>player_currentTime = Fin 0, player_duration = Fin 0, player_playing = True,
       player_status = idle\<rparr> 400" 0]
  by (simp add: firstRender_def)

section \<open>From a press on the track to a fraction\<close>

lemma touchProgress_pos:
  "0 < w \<Longrightarrow> touchProgress e w px = Fin (max 0 (min 1 ((e - px) / w)))"
  by (auto simp add: touchProgress_def Math_max_def Math_min_def max_def min_def Let_def)

lemma touchProgress_neg:
  "w < 0 \<Longrightarrow> touchProgress e w px = Fin (max 0 (min 1 ((e - px) / w)))"
  by (auto simp add: touchProgress_def Math_max_def Math_min_def max_def min_def Let_def)

lemma touchProgress_zero:
  "touchProgress e 0 px = (if 0 < e - px then Fin 1 else if e - px < 0 then Fin 0 else NaN)"
  by (simp add: touchProgress_def Math_max_def Math_min_def js_inf_def Let_def)

lemma clamp_spec_max_min: "clamp_spec v 0 1 = max 0 (min 1 v)"
  by (simp add: clamp_spec_def max_def min_def)

text \<open>
  Claim C5, as stated: a track width \<open>\<le> 0\<close> makes the mapping fail with
  \<open>InvalidGeometry\<close> instead of returning a fraction. The handlers divide by the
  measured width unchecked: a press 10 px right of the origin of a track of width 0
  yields the fraction 1.
\<close>

theorem touchProgress_zero_width_number: "touchProgress 10 0 0 = Fin 1"
  by (simp add: touchProgress_zero)

text \<open>
  Claim C5, amended: the handlers have no geometry check and report no error. For a
  track width \<open>< 0\<close> the result is the quotient clamped to \<open>[0, 1]\<close>; for the width
  0 the division yields an infinity or NaN, so the result is 1 for a press right of the
  origin, 0 for a press left of it and NaN for a press on it. \<open>handleSeekbarPress\<close>
  stores that result as the seek bar's value.
\<close>

theorem touchProgress_no_error:
  assumes "trackWidth \<le> 0"
  shows "touchProgress pressX trackWidth originX =
           (if trackWidth < 0 then Fin (max 0 (min 1 ((pressX - originX) / trackWidth)))
            else if 0 < pressX - originX then Fin 1
            else if pressX - originX < 0 then Fin 0
            else NaN)
       \<and> seekbarValue (handleSeekbarPress pressX trackWidth originX st)
           = touchProgress pressX trackWidth originX"
proof (cases "trackWidth < 0")
  case True
  then show ?thesis by (simp add: touchProgress_neg handleSeekbarPress_def Let_def)
next
  case False
  with assms have "trackWidth = 0" by simp
  then show ?thesis by (simp add: touchProgress_zero handleSeekbarPress_def Let_def)
qed

theorem touchProgress_no_error_witness:
  "touchProgress 0 0 0 = NaN \<and> touchProgress (-10) 0 0 = Fin 0
   \<and> touchProgress 10 (-20) 0 = Fin 0"
  using touchProgress_no_error [of 0 0 0] touchProgress_no_error [of 0 "-10" 0]
    touchProgress_no_error [of "-20" 10 0]
  by simp

text \<open>
  Claim C6: for a track width \<open>> 0\<close> the fraction computed from a press is
  \<open>clamp((pressX - originX) / widthPx, 0, 1)\<close>; it lies in \<open>[0, 1]\<close> and does not
  decrease when \<open>pressX\<close> grows.
\<close>

theorem touchProgress_clamp:
  assumes "0 < trackWidth"
  shows "touchProgress pressX trackWidth originX
           = Fin (clamp_spec ((pressX - originX) / trackWidth) 0 1)
       \<and> 0 \<le> clamp_spec ((pressX - originX) / trackWidth) 0 1
       \<and> clamp_spec ((pressX - originX) / trackWidth) 0 1 \<le> 1
       \<and> (pressX \<le> pressX' \<longrightarrow>
            (\<exists>f f'. touchProgress pressX trackWidth originX = Fin f
                  \<and> touchProgress pressX' trackWidth originX = Fin f' \<and> f \<le> f'))"
proof -
  have mono: "max 0 (min 1 ((pressX - originX) / trackWidth))
            \<le> max 0 (min 1 ((pressX' - originX) / trackWidth))" if "pressX \<le> pressX'"
  proof -
    from that assms have "(pressX - originX) / trackWidth \<le> (pressX' - originX) / trackWidth"
      by (simp add: divide_right_mono)
    then show ?thesis by (simp add: max_def min_def)
  qed
  show ?thesis
    using assms mono by (simp add: touchProgress_pos clamp_spec_max_min)
qed

text \<open>The example of the specification: a press at 160 on a track from 0 of width 320.\<close>

theorem touchProgress_clamp_witness:
  "touchProgress 160 320 0 = Fin (1 / 2)"
  using touchProgress_clamp [of 320 160 0 200] by (simp add: clamp_spec_def)

section \<open>Formatting a time\<close>











section \<open>Double taps\<close>

lemma setShowSeekIndicator_fields:
  "seekDirection (setShowSeekIndicator now v st) = seekDirection st"
  "currentTime (setShowSeekIndicator now v st) = currentTime st"
  "player (setShowSeekIndicator now v st) = player st"
  "showSeekIndicator (setShowSeekIndicator now v st) = v"
  by (auto simp add: setShowSeekIndicator_def seekIndicatorEffect_def Let_def)

lemma handleDoubleTap_left:
  "locationX < screenData_width st / 2 \<Longrightarrow>
   handleDoubleTap now locationX st =
     setShowSeekIndicator now True ((seekBackward st)\<lparr>seekDirection := Some backward\<rparr>)"
  by (simp add: handleDoubleTap_def Let_def)

lemma handleDoubleTap_right:
  "\<not> locationX < screenData_width st / 2 \<Longrightarrow>
   handleDoubleTap now locationX st =
     setShowSeekIndicator now True ((seekForward st)\<lparr>seekDirection := Some forward\<rparr>)"
  by (simp add: handleDoubleTap_def Let_def)

text \<open>
  Claim C7: a double tap is on the left half exactly when its \<open>locationX\<close> is below
  half the screen width, and on the right half otherwise. On the left the screen seeks
  backward (the target is \<open>max (c - 10) 0\<close>, that is \<open>c - 10\<close> when there is room)
  and shows the backward indicator; on the right it seeks forward (\<open>min (c + 10) d\<close>,
  that is \<open>c + 10\<close> when there is room) and shows the forward indicator. One pixel
  left of the middle is left, one pixel right of it is right.
\<close>

theorem handleDoubleTap_half:
  "seekDirection (handleDoubleTap now locationX st)
      = Some (if locationX < screenData_width st / 2 then backward else forward)
   \<and> currentTime (handleDoubleTap now locationX st)
      = currentTime (if locationX < screenData_width st / 2 then seekBackward st
                     else seekForward st)
   \<and> player (handleDoubleTap now locationX st)
      = player (if locationX < screenData_width st / 2 then seekBackward st
                else seekForward st)
   \<and> (player_currentTime (player st) = Fin c \<and> player_duration (player st) = Fin d \<longrightarrow>
        currentTime (handleDoubleTap now locationX st)
          = (if locationX < screenData_width st / 2 then Fin (max (c - 10) 0)
             else Fin (min (c + 10) d)))
   \<and> (player_currentTime (player st) = Fin c \<and> player_duration (player st) = Fin d
        \<and> 10 \<le> c \<and> c + 10 \<le> d \<longrightarrow>
        currentTime (handleDoubleTap now locationX st)
          = (if locationX < screenData_width st / 2 then Fin (c - 10) else Fin (c + 10)))
   \<and> showSeekIndicator (handleDoubleTap now locationX st)
   \<and> seekDirection (handleDoubleTap now (screenData_width st / 2 - 1) st) = Some backward
   \<and> seekDirection (handleDoubleTap now (screenData_width st / 2 + 1) st) = Some forward"
proof (cases "locationX < screenData_width st / 2")
  case True
  then show ?thesis
    by (simp add: handleDoubleTap_left handleDoubleTap_right setShowSeekIndicator_fields
        seekForward_finite seekBackward_finite)
next
  case False
  then show ?thesis
    by (simp add: handleDoubleTap_left handleDoubleTap_right setShowSeekIndicator_fields
        seekForward_finite seekBackward_finite)
qed

text \<open>Taps one pixel left and right of the middle of a screen 400 wide, at 50 s of 100 s.\<close>

theorem handleDoubleTap_half_witness:
  "seekDirection (handleDoubleTap 1000 199 (firstRender
      \<lparr>player_currentTime = Fin 50, player_duration = Fin 100, player_playing = True,
       player_status = readyToPlay\<rparr> 400)) = Some backward
   \<and> currentTime (handleDoubleTap 1000 199 (firstRender
      \<lparr>player_currentTime = Fin 50, player_duration = Fin 100, player_playing = True,
       player_status = readyToPlay\<rparr> 400)) = Fin 40
   \<and> seekDirection (handleDoubleTap 1000 201 (firstRender
      \<lparr>player_currentTime = Fin 50, player_duration = Fin 100, player_playing = True,
       player_status = readyToPlay\<rparr> 400)) = Some forward
   \<and> currentTime (handleDoubleTap 1000 201 (firstRender
      \<lparr>player_currentTime = Fin 50, player_duration = Fin 100, player_playing = True,
       player_status = readyToPlay\<rparr> 400)) = Fin 60"
proof -
  let ?st = "firstRender
      \<lparr>player_currentTime = Fin 50, player_duration = Fin 100, player_playing = True,
       player_status = readyToPlay\<rparr> 400"
  have f: "player_currentTime (player ?st) = Fin 50 \<and> player_duration (player ?st) = Fin 100"
    and w: "screenData_width ?st = 400"
    by (simp_all add: firstRender_def)
  note left = handleDoubleTap_half [of 1000 199 ?st 50 100]
  note right = handleDoubleTap_half [of 1000 201 ?st 50 100]
  from left have "seekDirection (handleDoubleTap 1000 199 ?st)
      = Some (if 199 < screenData_width ?st / 2 then backward else forward)"
    by (rule conjunct1)
  then have l1: "seekDirection (handleDoubleTap 1000 199 ?st) = Some backward"
    by (simp add: w)
  from left f have "currentTime (handleDoubleTap 1000 199 ?st)
      = (if 199 < screenData_width ?st / 2 then Fin (max (50 - 10) 0) else Fin (min (50 + 10) 100))"
    by blast
  then have l2: "currentTime (handleDoubleTap 1000 199 ?st) = Fin 40"
    by (simp add: w)
  from right have "seekDirection (handleDoubleTap 1000 201 ?st)
      = Some (if 201 < screenData_width ?st / 2 then backward else forward)"
    by (rule conjunct1)
  then have r1: "seekDirection (handleDoubleTap 1000 201 ?st) = Some forward"
    by (simp add: w)
  from right f have "currentTime (handleDoubleTap 1000 201 ?st)
      = (if 201 < screenData_width ?st / 2 then Fin (max (50 - 10) 0) else Fin (min (50 + 10) 100))"
    by blast
  then have r2: "currentTime (handleDoubleTap 1000 201 ?st) = Fin 60"
    by (simp add: w)
  from l1 l2 r1 r2 show ?thesis by blast
qed

section \<open>Dragging the seek bar\<close>

lemma intervalCallback_dragging: "isDragging st \<Longrightarrow> intervalCallback pad st = st"
  by (simp add: intervalCallback_def)

lemma during_drag_isDragging: "isDragging st \<Longrightarrow> isDragging (during_drag pad ev st)"
  by (cases ev) (simp_all add: onPanResponderMove_def Let_def intervalCallback_dragging)

lemma fold_drag_isDragging: "isDragging st \<Longrightarrow> isDragging (fold (during_drag pad) evs st)"
  by (induction evs arbitrary: st) (simp_all add: during_drag_isDragging)

lemma fold_drag_moves_only:
  "isDragging st \<Longrightarrow>
   fold (during_drag pad) evs st = fold (during_drag pad) (filter is_move evs) st"
proof (induction evs arbitrary: st)
  case Nil
  then show ?case by simp
next
  case (Cons ev evs)
  show ?case
  proof (cases ev)
    case (PanMove e w px)
    have "isDragging (during_drag pad ev st)"
      using Cons.prems by (rule during_drag_isDragging)
    from Cons.IH [OF this] PanMove show ?thesis by simp
  next
    case IntervalTick
    with Cons show ?thesis by (simp add: intervalCallback_dragging)
  qed
qed

text \<open>What a tick writes when no drag is going on: the player's position and duration,
  and, for a duration above 0, the seek bar's value and position.\<close>

lemma intervalCallback_resumes:
  assumes "\<not> isDragging st"
  shows "currentTime (intervalCallback pad st) = or_zero (player_currentTime (player st))"
    and "duration (intervalCallback pad st) = or_zero (player_duration (player st))"
    and "js_less (Fin 0) (or_zero (player_duration (player st))) \<Longrightarrow>
         seekbarValue (intervalCallback pad st)
           = js_div (or_zero (player_currentTime (player st)))
                    (or_zero (player_duration (player st)))"
    and "js_less (Fin 0) (or_zero (player_duration (player st))) \<Longrightarrow>
         seekbarPosition (intervalCallback pad st)
           = js_mul (js_div (or_zero (player_currentTime (player st)))
                            (or_zero (player_duration (player st))))
                    (Fin (seekbarWidth pad st))"
  using assms by (simp_all add: intervalCallback_def Let_def)

lemma onPanResponderRelease_isDragging:
  "\<not> isDragging (onPanResponderRelease captured st)"
  by (simp add: onPanResponderRelease_def Let_def)

text \<open>
  Claim C9: while \<open>isDragging\<close> holds, a tick of the polling interval changes nothing,
  so neither the seek bar's value and position nor the displayed time are overwritten.
  The flag holds from the start of the drag over every move and tick, so the state during
  a drag is the one the moves alone produce. The release clears the flag, and the next
  tick writes them again: the current time from the player's position and, for a
  duration above 0, the seek bar's value (position over duration) and position (the value
  times the seek bar's width).
\<close>

theorem polling_suppressed_while_dragging:
  assumes "isDragging st"
  shows "intervalCallback pad st = st
       \<and> displayedTime other (intervalCallback pad st) = displayedTime other st
       \<and> isDragging (fold (during_drag pad) evs st)
       \<and> fold (during_drag pad) evs st = fold (during_drag pad) (filter is_move evs) st
       \<and> \<not> isDragging (onPanResponderRelease captured (fold (during_drag pad) evs st))
       \<and> currentTime (intervalCallback pad
            (onPanResponderRelease captured (fold (during_drag pad) evs st)))
           = or_zero (player_currentTime (player
               (onPanResponderRelease captured (fold (during_drag pad) evs st))))
       \<and> (js_less (Fin 0) (or_zero (player_duration (player
               (onPanResponderRelease captured (fold (during_drag pad) evs st))))) \<longrightarrow>
            seekbarValue (intervalCallback pad
                (onPanResponderRelease captured (fold (during_drag pad) evs st)))
              = js_div
                  (or_zero (player_currentTime (player
                     (onPanResponderRelease captured (fold (during_drag pad) evs st)))))
                  (or_zero (player_duration (player
                     (onPanResponderRelease captured (fold (during_drag pad) evs st)))))
          \<and> seekbarPosition (intervalCallback pad
                (onPanResponderRelease captured (fold (during_drag pad) evs st)))
              = js_mul
                  (js_div
                     (or_zero (player_currentTime (player
                        (onPanResponderRelease captured (fold (during_drag pad) evs st)))))
                     (or_zero (player_duration (player
                        (onPanResponderRelease captured (fold (during_drag pad) evs st))))))
                  (Fin (seekbarWidth pad
                     (onPanResponderRelease captured (fold (during_drag pad) evs st)))))"
proof -
  let ?released = "onPanResponderRelease captured (fold (during_drag pad) evs st)"
  have rel: "\<not> isDragging ?released"
    by (rule onPanResponderRelease_isDragging)
  have suppressed: "intervalCallback pad st = st"
    using assms by (rule intervalCallback_dragging)
  then have shown: "displayedTime other (intervalCallback pad st) = displayedTime other st"
    by simp
  have held: "isDragging (fold (during_drag pad) evs st)"
    using assms by (rule fold_drag_isDragging)
  have moves: "fold (during_drag pad) evs st = fold (during_drag pad) (filter is_move evs) st"
    using assms by (rule fold_drag_moves_only)
  from suppressed shown held moves rel intervalCallback_resumes [OF rel, of pad]
  show ?thesis by blast
qed

lemma onPanResponderGrant_isDragging: "isDragging (onPanResponderGrant e w px st)"
  by (simp add: onPanResponderGrant_def Let_def)

text \<open>
  A drag on a player at 30 s of 120 s that starts at a quarter of the track and moves to
  its middle, with a tick before and after the move: the seek bar's value during the drag
  is a half. After the release (by the handler of the first render) the next tick puts
  the value back to a quarter and the position to 80 of the 320 px.
\<close>

theorem polling_suppressed_while_dragging_witness:
  "isDragging (onPanResponderGrant 80 320 0 (firstRender
      \<lparr>player_currentTime = Fin 30, player_duration = Fin 120, player_playing = True,
       player_status = readyToPlay\<rparr> 352))
   \<and> seekbarValue (fold (during_drag 16) [IntervalTick, PanMove 160 320 0, IntervalTick]
       (onPanResponderGrant 80 320 0 (firstRender
      \<lparr>player_currentTime = Fin 30, player_duration = Fin 120, player_playing = True,
       player_status = readyToPlay\<rparr> 352))) = Fin (1 / 2)
   \<and> seekbarValue (intervalCallback 16 (onPanResponderRelease
       (firstRender
      \<lparr>player_currentTime = Fin 30, player_duration = Fin 120, player_playing = True,
       player_status = readyToPlay\<rparr> 352)
       (fold (during_drag 16) [IntervalTick, PanMove 160 320 0, IntervalTick]
       (onPanResponderGrant 80 320 0 (firstRender
      \<lparr>player_currentTime = Fin 30, player_duration = Fin 120, player_playing = True,
       player_status = readyToPlay\<rparr> 352))))) = Fin (1 / 4)
   \<and> seekbarPosition (intervalCallback 16 (onPanResponderRelease
       (firstRender
      \<lparr>player_currentTime = Fin 30, player_duration = Fin 120, player_playing = True,
       player_status = readyToPlay\<rparr> 352)
       (fold (during_drag 16) [IntervalTick, PanMove 160 320 0, IntervalTick]
       (onPanResponderGrant 80 320 0 (firstRender
      \<lparr>player_currentTime = Fin 30, player_duration = Fin 120, player_playing = True,
       player_status = readyToPlay\<rparr> 352))))) = Fin 80"
proof -
  let ?first = "firstRender
      \<lparr>player_currentTime = Fin 30, player_duration = Fin 120, player_playing = True,
       player_status = readyToPlay\<rparr> 352"
  let ?st = "onPanResponderGrant 80 320 0 ?first"
  let ?evs = "[IntervalTick, PanMove 160 320 0, IntervalTick]"
  let ?dragged = "fold (during_drag 16) ?evs ?st"
  let ?released = "onPanResponderRelease ?first ?dragged"
  have d: "isDragging ?st" by (rule onPanResponderGrant_isDragging)
  note inst = polling_suppressed_while_dragging [OF d, of 16 "\<lambda>a. ''?''" ?evs ?first]
  from inst have moves: "?dragged = fold (during_drag 16) (filter is_move ?evs) ?st"
    by blast
  then have dragged: "?dragged = ?st\<lparr>seekbarValue := Fin (1 / 2), seekbarPosition := Fin 160\<rparr>"
    by (simp add: onPanResponderMove_def touchProgress_pos Let_def)
  then have half: "seekbarValue ?dragged = Fin (1 / 2)" by simp
  have p: "player ?released = \<lparr>player_currentTime = Fin 30, player_duration = Fin 120,
      player_playing = True, player_status = readyToPlay\<rparr>"
    and w: "seekbarWidth 16 ?released = 320"
    unfolding dragged
    by (simp_all add: onPanResponderRelease_def onPanResponderGrant_def firstRender_def
        seekbarWidth_def Let_def)
  have pos: "js_less (Fin 0) (or_zero (player_duration (player ?released)))"
    unfolding p by (simp add: or_zero_def truthy_def)
  from inst pos have "seekbarValue (intervalCallback 16 ?released)
      = js_div (or_zero (player_currentTime (player ?released)))
               (or_zero (player_duration (player ?released)))
    \<and> seekbarPosition (intervalCallback 16 ?released)
      = js_mul (js_div (or_zero (player_currentTime (player ?released)))
                       (or_zero (player_duration (player ?released))))
               (Fin (seekbarWidth 16 ?released))"
    by blast
  then have after: "seekbarValue (intervalCallback 16 ?released) = Fin (1 / 4)
    \<and> seekbarPosition (intervalCallback 16 ?released) = Fin 80"
    unfolding p w by (simp add: or_zero_def truthy_def)
  from d half after show ?thesis by blast
qed

section \<open>The overlay countdown\<close>

lemma togglePlayPause_overlay:
  "showPlayPauseOverlay (togglePlayPause st) = showPlayPauseOverlay st"
  "overlayTimeoutRef (togglePlayPause st) = overlayTimeoutRef st"
  "seekIndicatorTimeoutRef (togglePlayPause st) = seekIndicatorTimeoutRef st"
  by (simp_all add: togglePlayPause_def)

lemma handleSingleTap_hidden:
  assumes "\<not> showPlayPauseOverlay st"
  shows "showPlayPauseOverlay (handleSingleTap now st)"
    and "overlayTimeoutRef (handleSingleTap now st) = Some (now + PLAY_PAUSE_OVERLAY_DURATION)"
    and "seekIndicatorTimeoutRef (handleSingleTap now st) = seekIndicatorTimeoutRef st"
  using assms
  by (simp_all add: handleSingleTap_def togglePlayPause_overlay setShowPlayPauseOverlay_def
      overlayEffect_def Let_def)

lemma handleSingleTap_shown:
  assumes "showPlayPauseOverlay st"
  shows "showPlayPauseOverlay (handleSingleTap now st)"
    and "overlayTimeoutRef (handleSingleTap now st) = overlayTimeoutRef st"
    and "seekIndicatorTimeoutRef (handleSingleTap now st) = seekIndicatorTimeoutRef st"
  using assms
  by (simp_all add: handleSingleTap_def togglePlayPause_overlay setShowPlayPauseOverlay_def)

lemma elapse_no_indicator:
  "seekIndicatorTimeoutRef st = None \<Longrightarrow> elapse now st = fireOverlay now st"
  by (simp add: elapse_def fireSeekIndicator_def fireOverlay_def overlayTimeout_def
      setShowPlayPauseOverlay_def overlayEffect_def Let_def split: option.splits)

lemma fireOverlay_idle: "overlayTimeoutRef st = None \<Longrightarrow> fireOverlay now st = st"
  by (simp add: fireOverlay_def)

lemma fireOverlay_early:
  "overlayTimeoutRef st = Some due \<Longrightarrow> now < due \<Longrightarrow> fireOverlay now st = st"
  by (simp add: fireOverlay_def)

lemma fireOverlay_due:
  "overlayTimeoutRef st = Some due \<Longrightarrow> due \<le> now \<Longrightarrow>
   \<not> showPlayPauseOverlay (fireOverlay now st)"
  by (simp add: fireOverlay_def overlayTimeout_def setShowPlayPauseOverlay_def
      overlayEffect_def Let_def)

text \<open>
  Two single taps from a hidden overlay, the second while the overlay of the first is
  still shown: the overlay is hidden \<open>PLAY_PAUSE_OVERLAY_DURATION\<close> after the first
  tap, whatever the time of the second.
\<close>

lemma overlay_not_restarted_general:
  assumes hidden: "\<not> showPlayPauseOverlay st" "overlayTimeoutRef st = None"
      "seekIndicatorTimeoutRef st = None"
    and order: "t2 < t1 + PLAY_PAUSE_OVERLAY_DURATION" "t2 \<le> t"
  shows "overlay_shown_at t [t1, t2] st = (t < t1 + PLAY_PAUSE_OVERLAY_DURATION)"
proof -
  let ?s1 = "handleSingleTap t1 st"
  let ?s2 = "handleSingleTap t2 ?s1"
  have e1: "elapse t1 st = st"
    using hidden by (simp add: elapse_no_indicator fireOverlay_idle)
  have s1: "showPlayPauseOverlay ?s1"
    "overlayTimeoutRef ?s1 = Some (t1 + PLAY_PAUSE_OVERLAY_DURATION)"
    "seekIndicatorTimeoutRef ?s1 = None"
    using hidden by (simp_all add: handleSingleTap_hidden)
  have e2: "elapse t2 ?s1 = ?s1"
    using s1 order by (simp add: elapse_no_indicator fireOverlay_early)
  have s2: "showPlayPauseOverlay ?s2"
    "overlayTimeoutRef ?s2 = Some (t1 + PLAY_PAUSE_OVERLAY_DURATION)"
    "seekIndicatorTimeoutRef ?s2 = None"
    using s1 by (simp_all add: handleSingleTap_shown)
  have run: "single_taps [t1, t2] st = ?s2"
    by (simp add: single_taps_def e1 e2)
  show ?thesis
  proof (cases "t < t1 + PLAY_PAUSE_OVERLAY_DURATION")
    case True
    with s2 show ?thesis
      by (simp add: overlay_shown_at_def run elapse_no_indicator fireOverlay_early)
  next
    case False
    then have "t1 + PLAY_PAUSE_OVERLAY_DURATION \<le> t" by simp
    with s2 False show ?thesis
      by (simp add: overlay_shown_at_def run elapse_no_indicator fireOverlay_due)
  qed
qed

text \<open>
  Claim C3 says that a trigger while the overlay is shown restarts the countdown, so that
  triggers at 0 and 2000 keep the play/pause overlay up to 4500. On the first render's
  state the overlay is shown at 2499 and hidden at 2500: the second call of
  \<open>setShowPlayPauseOverlay\<close> finds the flag set, so the effect that would clear and
  restart the timeout does not run.
\<close>

theorem overlay_not_restarted:
  "overlay_shown_at 2499 [0, 2000] (firstRender p width)
   \<and> \<not> overlay_shown_at 2500 [0, 2000] (firstRender p width)
   \<and> \<not> overlay_shown_at 4499 [0, 2000] (firstRender p width)"
proof -
  have h: "\<not> showPlayPauseOverlay (firstRender p width)"
    "overlayTimeoutRef (firstRender p width) = None"
    "seekIndicatorTimeoutRef (firstRender p width) = None"
    by (simp_all add: firstRender_def)
  show ?thesis
    using overlay_not_restarted_general [OF h, of 2000 0 2499]
      overlay_not_restarted_general [OF h, of 2000 0 2500]
      overlay_not_restarted_general [OF h, of 2000 0 4499]
    by (simp add: PLAY_PAUSE_OVERLAY_DURATION_def)
qed

section \<open>Single and double taps\<close>

lemma timeout_not_before_due:
  "t < n + DOUBLE_TAP_DELAY \<Longrightarrow> run clock (Timeout t n # evs) st = None"
  by simp

text \<open>
  Two taps less than \<open>DOUBLE_TAP_DELAY\<close> apart: the first tap's timeout cannot run
  between them, and the second tap makes the one call of \<open>handleDoubleTap\<close>. (The
  stamp 0, which \<open>Date.now()\<close> does not return, would be falsy in the handler's test.)
\<close>

lemma double_tap_in_window:
  assumes "t1 \<noteq> 0" and "0 \<le> t1" and "t1 \<le> t2" and "t2 - t1 < DOUBLE_TAP_DELAY"
    and "t1 + DOUBLE_TAP_DELAY \<le> t"
  shows "classify [Tap t1 x1, Tap t2 x2, Timeout t t1] = Some [DoubleTap t1 t2 x2]"
    and "classify (Tap t1 x1 # Timeout a t1 # Tap t2 x2 # evs) = None"
  using assms
  by (simp_all add: classify_def handleVideoTap_def timeoutCallback_def noTaps_def
      DOUBLE_TAP_DELAY_def)

text \<open>
  Two taps \<open>DOUBLE_TAP_DELAY\<close> or more apart. When the first tap's timeout runs before
  the second tap is handled, each tap gets its call of \<open>handleSingleTap\<close>. When the
  second tap is handled first, it overwrites \<open>lastTapRef\<close>; the first tap's timeout
  then finds another stamp, and only the second tap gets a call.
\<close>

lemma two_singles_when_timeout_first:
  assumes "0 \<le> t1" and "t1 + DOUBLE_TAP_DELAY \<le> a" and "a \<le> t2"
    and "t2 + DOUBLE_TAP_DELAY \<le> b"
  shows "classify [Tap t1 x1, Timeout a t1, Tap t2 x2, Timeout b t2]
           = Some [SingleTap t1, SingleTap t2]"
  using assms
  by (simp add: classify_def handleVideoTap_def timeoutCallback_def noTaps_def
      DOUBLE_TAP_DELAY_def)

lemma one_single_when_timeout_late:
  assumes "0 \<le> t1" and "t1 + DOUBLE_TAP_DELAY \<le> t2" and "t2 \<le> a" and "a \<le> b"
    and "t2 + DOUBLE_TAP_DELAY \<le> b"
  shows "classify [Tap t1 x1, Tap t2 x2, Timeout a t1, Timeout b t2] = Some [SingleTap t2]"
  using assms
  by (simp add: classify_def handleVideoTap_def timeoutCallback_def noTaps_def
      DOUBLE_TAP_DELAY_def)

text \<open>
  Claim C2 says that two taps \<open>DOUBLE_TAP_DELAY\<close> or more apart are two single taps,
  the first tap's decision resolving once the delay has passed. With taps handled at
  1000 and 1305 and the first tap's timeout run only at 1306, the one call made is the
  \<open>handleSingleTap\<close> of the second tap; with the same taps and the timeout run at 1300
  there are two calls.
\<close>

theorem second_tap_before_late_timeout:
  "classify [Tap 1000 120, Tap 1305 130, Timeout 1306 1000, Timeout 1605 1305]
     = Some [SingleTap 1305]
   \<and> classify [Tap 1000 120, Timeout 1300 1000, Tap 1305 130, Timeout 1605 1305]
     = Some [SingleTap 1000, SingleTap 1305]"
  by (simp add: classify_def handleVideoTap_def timeoutCallback_def noTaps_def
      DOUBLE_TAP_DELAY_def)

subsection \<open>No tap is accounted for twice\<close>

lemma accounted_timeouts_update: "accounted (st\<lparr>timeouts := tms\<rparr>) = accounted st"
  by (simp add: accounted_def pending_def)

lemma timeoutCallback_accounted: "accounted (timeoutCallback n st) = accounted st"
  by (simp add: timeoutCallback_def accounted_def covered_def pending_def)

lemma handleVideoTap_accounted:
  "accounted (handleVideoTap now x st) \<subseteq># accounted st + {#now#}"
  by (simp add: handleVideoTap_def accounted_def covered_def pending_def
      split: option.splits)

lemma run_accounted:
  "run clock evs st = Some st' \<Longrightarrow> accounted st' \<subseteq># accounted st + mset (tap_stamps evs)"
proof (induction evs arbitrary: clock st)
  case Nil
  then show ?case by simp
next
  case (Cons ev evs)
  show ?case
  proof (cases ev)
    case (Tap now x)
    with Cons.prems have "run now evs (handleVideoTap now x st) = Some st'"
      by (simp split: if_splits)
    then have "accounted st' \<subseteq># accounted (handleVideoTap now x st) + mset (tap_stamps evs)"
      by (rule Cons.IH)
    also have "\<dots> \<subseteq># (accounted st + {#now#}) + mset (tap_stamps evs)"
      using handleVideoTap_accounted [of now x st] by (simp only: subset_mset.add_right_mono)
    finally show ?thesis using Tap by (simp add: ac_simps)
  next
    case (Timeout t n)
    with Cons.prems
    have "run t evs (timeoutCallback n
            (st\<lparr>timeouts := remove1 (n + DOUBLE_TAP_DELAY, n) (timeouts st)\<rparr>)) = Some st'"
      by (simp split: if_splits)
    then have "accounted st' \<subseteq>#
        accounted (timeoutCallback n
            (st\<lparr>timeouts := remove1 (n + DOUBLE_TAP_DELAY, n) (timeouts st)\<rparr>))
        + mset (tap_stamps evs)"
      by (rule Cons.IH)
    then show ?thesis
      using Timeout by (simp add: timeoutCallback_accounted accounted_timeouts_update)
  qed
qed

text \<open>Under every schedule, the calls account for taps of the schedule only, and for
  each of them at most once.\<close>

lemma no_tap_classified_twice:
  assumes "classify evs = Some cs"
  shows "mset (concat (map taps_of cs)) \<subseteq># mset (tap_stamps evs)"
proof -
  from assms obtain st where r: "run 0 evs noTaps = Some st" and c: "cs = calls st"
    by (auto simp add: classify_def split: option.splits if_splits)
  have "covered (calls st) \<subseteq># accounted st"
    by (simp add: accounted_def)
  also have "\<dots> \<subseteq># accounted noTaps + mset (tap_stamps evs)"
    using r by (rule run_accounted)
  also have "\<dots> = mset (tap_stamps evs)"
    by (simp add: accounted_def covered_def pending_def noTaps_def)
  finally show ?thesis by (simp add: covered_def c)
qed

text \<open>
  Claim C8 says that every tap, alone or in a pair, gets exactly one classification.
  With taps handled at 1000, 1305 and 1400 and the first tap's timeout run only at 1306,
  the one call made is the \<open>handleDoubleTap\<close> for the second and third tap: the tap at
  1000 is in no call.
\<close>

theorem earlier_tap_left_unclassified:
  "classify [Tap 1000 120, Tap 1305 130, Timeout 1306 1000, Tap 1400 140, Timeout 1605 1305]
     = Some [DoubleTap 1305 1400 140]
   \<and> 1000 \<notin> set (concat (map taps_of [DoubleTap 1305 1400 140]))"
  by (simp add: classify_def handleVideoTap_def timeoutCallback_def noTaps_def
      DOUBLE_TAP_DELAY_def)

end
